theory Spec2Isabelle
  imports Complex_Main "HOL-Library.Sublist"
begin

text \<open>
  The Langflow frontend: components, handlers, hooks and constants of the client, embedded
  as functions over explicit state. A component is a function from its props (and the
  translation function of the active language) to the tree it renders; a handler is a
  function on the state of the page or of the stores it touches; a request to the backend
  is an explicit answer of the server, success or failure.
\<close>

section \<open>Shared vocabulary: JavaScript values, translation, rendered trees\<close>

text \<open>
  A JavaScript value as far as the components below inspect one: the untyped argument
  \<open>healthCheckTimeout\<close> is compared with string literals by a \<open>switch\<close>, which uses
  strict equality, so a value of another type never equals a string.
\<close>

datatype js_value = JUndefined | JNull | JBool bool | JNumber int | JString string

text \<open>
  The translation function \<open>t\<close> of \<open>useTranslation()\<close>: from a dotted key path to the text
  of the active language. Components take it as an argument.
\<close>

type_synonym translation = "string \<Rightarrow> string"

text \<open>
  A rendered tree. An element has a tag or component name, its props in source order and
  its children. A prop is a string, a boolean, a number, or an opaque value handed through
  (a callback or a value of the caller). \<open>className\<close> props carry styling only and are left
  out of the trees below.
\<close>

datatype 'v prop_value = PString string | PBool bool | PNum rat | PValue 'v

datatype 'v element =
    Elem string "(string \<times> 'v prop_value) list" "'v element list"
  | TextNode string

definition Fragment :: "'v element" where
  "Fragment = Elem ''Fragment'' [] []"

fun tag :: "'v element \<Rightarrow> string" where
  "tag (Elem n ps cs) = n"
| "tag (TextNode s) = ''#text''"

fun props :: "'v element \<Rightarrow> (string \<times> 'v prop_value) list" where
  "props (Elem n ps cs) = ps"
| "props (TextNode s) = []"

fun children :: "'v element \<Rightarrow> 'v element list" where
  "children (Elem n ps cs) = cs"
| "children (TextNode s) = []"

definition get_prop :: "'v element \<Rightarrow> string \<Rightarrow> 'v prop_value option" where
  "get_prop e k = map_of (props e) k"

text \<open>All elements of a tree with a given tag, in document order.\<close>

fun elements_named :: "string \<Rightarrow> 'v element \<Rightarrow> 'v element list" where
  "elements_named n (Elem m ps cs) =
     (if m = n then [Elem m ps cs] else []) @ concat (map (elements_named n) cs)"
| "elements_named n (TextNode s) = []"


section \<open>GenericErrorComponent\<close>

text \<open>
  \<^verbatim>\<open>switch (healthCheckTimeout) { case "serverDown": ...; case "timeout": ...; default: <></> }\<close>
\<close>

definition GenericErrorComponent ::
  "translation \<Rightarrow> js_value \<Rightarrow> 'v \<Rightarrow> 'v \<Rightarrow> 'v element" where
  "GenericErrorComponent t healthCheckTimeout fetching retry =
     (if healthCheckTimeout = JString ''serverDown'' then
        Elem ''CustomFetchErrorComponent''
          [(''description'', PString (t ''constants.error.fetchDescription'')),
           (''message'', PString (t ''constants.error.fetch'')),
           (''openModal'', PBool True),
           (''setRetry'', PValue retry),
           (''isLoadingHealth'', PValue fetching)] []
      else if healthCheckTimeout = JString ''timeout'' then
        Elem ''TimeoutErrorComponent''
          [(''description'', PString (t ''constants.timeout.timeout'')),
           (''message'', PString (t ''constants.timeout.timeoutDescription'')),
           (''openModal'', PBool True),
           (''setRetry'', PValue retry),
           (''isLoadingHealth'', PValue fetching)] []
      else Fragment)"


section \<open>PlaygroundButton\<close>

definition PlayIcon :: "bool \<Rightarrow> 'v element" where
  "PlayIcon ENABLE_PUBLISH =
     Elem ''ForwardedIconComponent''
       [(''name'', PString ''Play''),
        (''strokeWidth'', PNum (if ENABLE_PUBLISH then 2 else 3 / 2))] []"

definition ButtonLabel :: "translation \<Rightarrow> 'v element" where
  "ButtonLabel t = Elem ''span'' [] [TextNode (t ''flow.panel.playground.displayName'')]"

definition ActiveButton :: "bool \<Rightarrow> translation \<Rightarrow> 'v element" where
  "ActiveButton ENABLE_PUBLISH t =
     Elem ''div'' [(''data-testid'', PString ''playground-btn-flow-io'')]
       [PlayIcon ENABLE_PUBLISH, ButtonLabel t]"

definition DisabledButton :: "bool \<Rightarrow> translation \<Rightarrow> 'v element" where
  "DisabledButton ENABLE_PUBLISH t =
     Elem ''div'' [(''data-testid'', PString ''playground-btn-flow'')]
       [PlayIcon ENABLE_PUBLISH, ButtonLabel t]"

record 'v PlaygroundButtonProps =
  hasIO :: bool
  open_prop :: bool
  setOpen :: 'v
  canvasOpen :: bool

definition PlaygroundButton ::
  "bool \<Rightarrow> translation \<Rightarrow> 'v PlaygroundButtonProps \<Rightarrow> 'v element" where
  "PlaygroundButton ENABLE_PUBLISH t p =
     (if hasIO p then
        Elem ''CustomIOModal''
          [(''open'', PBool (open_prop p)),
           (''setOpen'', PValue (setOpen p)),
           (''disable'', PBool (\<not> hasIO p)),
           (''canvasOpen'', PBool (canvasOpen p))]
          [ActiveButton ENABLE_PUBLISH t]
      else
        Elem ''ShadTooltip''
          [(''content'', PString (t ''flow.panel.playground.tooltip''))]
          [Elem ''div'' [] [DisabledButton ENABLE_PUBLISH t]])"

text \<open>The two shapes the claim speaks of.\<close>

definition renders_playground_modal ::
  "bool \<Rightarrow> translation \<Rightarrow> 'v element \<Rightarrow> bool" where
  "renders_playground_modal ENABLE_PUBLISH t e =
     (tag e = ''CustomIOModal'' \<and> children e = [ActiveButton ENABLE_PUBLISH t])"

definition renders_disabled_tooltip ::
  "bool \<Rightarrow> translation \<Rightarrow> 'v element \<Rightarrow> bool" where
  "renders_disabled_tooltip ENABLE_PUBLISH t e =
     (tag e = ''ShadTooltip''
      \<and> get_prop e ''content'' = Some (PString (t ''flow.panel.playground.tooltip''))
      \<and> children e = [Elem ''div'' [] [DisabledButton ENABLE_PUBLISH t]])"


section \<open>NoInputView\<close>

text \<open>
  The props are two callbacks of the caller. A callback acts on the world \<open>'w\<close> of the
  caller; \<open>sendMessage\<close> takes the argument object \<open>{repeat}\<close>. The click handler of the run
  button is \<^verbatim>\<open>async () => { await sendMessage({repeat: 1}) }\<close>, that of the stop button is
  \<open>stopBuilding\<close> itself.
\<close>

record sendMessageArgs =
  repeat :: nat

record 'w NoInputViewProps =
  isBuilding :: bool
  sendMessage :: "sendMessageArgs \<Rightarrow> 'w \<Rightarrow> 'w"
  stopBuilding :: "'w \<Rightarrow> 'w"

definition NoInputView ::
  "translation \<Rightarrow> 'w NoInputViewProps \<Rightarrow> ('w \<Rightarrow> 'w) element" where
  "NoInputView t p =
     Elem ''div'' []
       [Elem ''div'' []
          [(if \<not> isBuilding p then
              Elem ''Button''
                [(''data-testid'', PString ''button-send''),
                 (''onClick'', PValue (\<lambda>w. sendMessage p \<lparr>repeat = 1\<rparr> w))]
                [TextNode (t ''chat.input.runFlow'')]
            else
              Elem ''Button''
                [(''onClick'', PValue (stopBuilding p)),
                 (''data-testid'', PString ''button-stop''),
                 (''unstyled'', PBool True)]
                [Elem ''div'' []
                   [TextNode (t ''chat.input.stop''), Elem ''Loading'' [] []]]),
           Elem ''p'' []
             [TextNode (t ''chat.input.addChatInput''),
              TextNode '' '',
              Elem ''a''
                [(''target'', PString ''_blank''),
                 (''href'', PString ''https://docs.langflow.org/components-io#chat-input''),
                 (''rel'', PString ''noopener'')]
                [TextNode (t ''chat.input.chatInputLink'')],
              TextNode '' '',
              TextNode (t ''chat.input.componentToSendMessages'')]]]"


section \<open>AdminPage: filtering the user list\<close>

text \<open>
  A user as far as the admin page reads one (the record is extensible, the other fields of
  \<open>Users\<close> are not inspected by the filter).
\<close>

record Users =
  user_id :: string
  username :: string

text \<open>
  \<open>String.prototype.toLowerCase\<close>. A character is a code unit from 0x00 to 0xFF. The
  cased letters among them are A to Z (0x41 to 0x5A) and the capital letters from 0xC0 to
  0xDE other than the multiplication sign 0xD7; the lowercase form of each is 0x20 higher.
  Every other code unit of the range is its own lowercase form.
  \<open>String.prototype.includes\<close>: the argument occurs as a contiguous substring.
\<close>

definition toLowerCase_char :: "char \<Rightarrow> char" where
  "toLowerCase_char c =
     (let n = (of_char c :: nat) in
      if (65 \<le> n \<and> n \<le> 90) \<or> (192 \<le> n \<and> n \<le> 222 \<and> n \<noteq> 215)
      then char_of (n + 32) else c)"

definition toLowerCase :: "string \<Rightarrow> string" where
  "toLowerCase s = map toLowerCase_char s"

fun includes_str :: "string \<Rightarrow> string \<Rightarrow> bool" where
  "includes_str [] x = (x = [])"
| "includes_str (c # s) x = (prefix x (c # s) \<or> includes_str s x)"

text \<open>
  The page state the handler touches: the text of the search box, the fetched list kept in
  the ref \<open>userList.current\<close>, and the list the table renders (\<open>filterUserList.map(...)\<close>).
\<close>

record AdminPage_state =
  inputValue :: string
  userList :: "Users list"
  filterUserList :: "Users list"

definition handleFilterUsers :: "string \<Rightarrow> AdminPage_state \<Rightarrow> AdminPage_state" where
  "handleFilterUsers input st =
     (let st1 = st\<lparr>inputValue := input\<rparr> in
      if input = [] then st1\<lparr>filterUserList := userList st1\<rparr>
      else
        let filteredList =
              filter (\<lambda>user. includes_str (toLowerCase (username user)) (toLowerCase input))
                (userList st1)
        in st1\<lparr>filterUserList := filteredList\<rparr>)"


section \<open>PublishDropdown: handlePublishedSwitch\<close>

record FlowType =
  flow_id :: string
  flow_name :: string
  access_type :: string

record ErrorData =
  title :: string
  list :: "string list"

text \<open>
  The stores the handler reads and writes. \<open>flows\<close> and the current flow it reads the id
  from live in the flows manager store, \<open>setCurrentFlow\<close> is the setter of the flow store,
  \<open>setErrorData\<close> that of the alert store.
\<close>

record stores =
  manager_currentFlow :: "FlowType option"
  manager_flows :: "FlowType list option"
  flowStore_currentFlow :: "FlowType option"
  alert_errorData :: "ErrorData option"

text \<open>
  Modelled from the spec: the setters \<open>setFlows\<close>, \<open>setCurrentFlow\<close> and \<open>setErrorData\<close>
  of the stores are not among the sources. The stores are described as containers of UI
  state with getters and setters; each setter assigns the one field it is named after.
\<close>

definition setFlows :: "FlowType list \<Rightarrow> stores \<Rightarrow> stores" where
  "setFlows fs st = st\<lparr>manager_flows := Some fs\<rparr>"

definition setCurrentFlow :: "FlowType \<Rightarrow> stores \<Rightarrow> stores" where
  "setCurrentFlow f st = st\<lparr>flowStore_currentFlow := Some f\<rparr>"

definition setErrorData :: "ErrorData \<Rightarrow> stores \<Rightarrow> stores" where
  "setErrorData e st = st\<lparr>alert_errorData := Some e\<rparr>"

definition publish_onSuccess :: "translation \<Rightarrow> FlowType \<Rightarrow> stores \<Rightarrow> stores" where
  "publish_onSuccess t updatedFlow st =
     (case manager_flows st of
        Some flows \<Rightarrow>
          setCurrentFlow updatedFlow
            (setFlows
               (map (\<lambda>flow. if flow_id flow = flow_id updatedFlow then updatedFlow else flow)
                  flows)
               st)
      | None \<Rightarrow>
          setErrorData
            \<lparr>title = t ''flow.share.error.saveFailedTitle'',
             list = [t ''flow.share.error.flowsUndefined'']\<rparr> st)"

definition publish_onError :: "translation \<Rightarrow> string \<Rightarrow> stores \<Rightarrow> stores" where
  "publish_onError t e_message st =
     setErrorData \<lparr>title = t ''flow.share.error.saveFailedTitle'', list = [e_message]\<rparr> st"

text \<open>
  The PATCH itself is the backend's: \<open>patch\<close> answers a request \<open>(id, access_type)\<close> with
  the updated flow or with an error message. \<open>flowId ?? ""\<close> is the id of the manager
  store's current flow, or the empty string.
\<close>

definition handlePublishedSwitch ::
  "translation \<Rightarrow> (string \<times> string \<Rightarrow> string + FlowType) \<Rightarrow> bool \<Rightarrow> stores \<Rightarrow> stores" where
  "handlePublishedSwitch t patch checked st =
     (let flowId = (case manager_currentFlow st of Some f \<Rightarrow> flow_id f | None \<Rightarrow> '''') in
      case patch (flowId, if checked then ''PRIVATE'' else ''PUBLIC'') of
        Inr updatedFlow \<Rightarrow> publish_onSuccess t updatedFlow st
      | Inl e_message \<Rightarrow> publish_onError t e_message st)"


section \<open>useSwitchLocale: the mutation function\<close>

text \<open>
  The payload, a request as the HTTP client sends it, and a response. The server is a
  function from the request to its answer, a response or a rejection.
\<close>

record ISwitchLocale =
  lang :: string

record 'p request =
  http_method :: string
  url :: string
  body :: 'p

record 'd response =
  data :: 'd
  status :: nat

datatype http_error = HttpError string

type_synonym ('p, 'd) server = "'p request \<Rightarrow> http_error + 'd response"

text \<open>
  Modelled from the spec: the shared HTTP client \<open>api\<close> is not among the sources. A call
  of \<open>api.put\<close> is one request: it goes out (it is appended to the requests sent so far)
  and the server's answer comes back. The table behind \<open>getURL\<close> is not among the sources
  either; \<open>getURL\<close> is a parameter of the functions below.
\<close>

definition api_put ::
  "('p, 'd) server \<Rightarrow> string \<Rightarrow> 'p \<Rightarrow> 'p request list
     \<Rightarrow> (http_error + 'd response) \<times> 'p request list" where
  "api_put srv u payload sent =
     (let req = \<lparr>http_method = ''PUT'', url = u, body = payload\<rparr>
      in (srv req, sent @ [req]))"

definition switchLocaleFn ::
  "(string \<Rightarrow> string) \<Rightarrow> (ISwitchLocale, 'd) server \<Rightarrow> ISwitchLocale
     \<Rightarrow> ISwitchLocale request list \<Rightarrow> (http_error + 'd) \<times> ISwitchLocale request list" where
  "switchLocaleFn getURL srv payload sent =
     (case api_put srv (getURL ''LOCALE'' @ ''/switch/'') payload sent of
        (Inl e, sent') \<Rightarrow> (Inl e, sent')
      | (Inr response, sent') \<Rightarrow> (Inr (data response), sent'))"

text \<open>
  The function handed to \<open>mutate\<close>:
  \<^verbatim>\<open>async (payload) => { const res = await switchLocaleFn(payload); return res; }\<close>
\<close>

definition switchLocale_mutationFn ::
  "(string \<Rightarrow> string) \<Rightarrow> (ISwitchLocale, 'd) server \<Rightarrow> ISwitchLocale
     \<Rightarrow> ISwitchLocale request list \<Rightarrow> (http_error + 'd) \<times> ISwitchLocale request list" where
  "switchLocale_mutationFn getURL srv payload sent =
     (case switchLocaleFn getURL srv payload sent of
        (Inl e, sent') \<Rightarrow> (Inl e, sent')
      | (Inr res, sent') \<Rightarrow> (Inr res, sent'))"


section \<open>SignUp page\<close>

record signUpInputStateType =
  password :: string
  cnfPassword :: string
  username_input :: string

definition CONTROL_INPUT_STATE :: signUpInputStateType where
  "CONTROL_INPUT_STATE = \<lparr>password = '''', cnfPassword = '''', username_input = ''''\<rparr>"

record UserInputType =
  new_username :: string
  new_password :: string

text \<open>
  \<open>String.prototype.trim\<close>: white space and line terminators are removed at both ends.
  Among the code units from 0x00 to 0xFF these are TAB, LF, VT, FF, CR, the space and the
  no-break space 0xA0.
\<close>

definition is_white_space :: "char \<Rightarrow> bool" where
  "is_white_space c = ((of_char c :: nat) \<in> {9, 10, 11, 12, 13, 32, 160})"

definition trim :: "string \<Rightarrow> string" where
  "trim s = rev (dropWhile is_white_space (rev (dropWhile is_white_space s)))"

text \<open>
  The component state, and the users handed to \<open>mutateAddUser\<close> so far. The three inputs
  call \<open>handleInput\<close> with the names "username", "password" and "cnfPassword".
\<close>

datatype input_name = Username | Password | CnfPassword

record SignUp_state =
  inputState :: signUpInputStateType
  isDisabled :: bool
  addUser_calls :: "UserInputType list"

definition SignUp_initial :: SignUp_state where
  "SignUp_initial =
     \<lparr>inputState = CONTROL_INPUT_STATE, isDisabled = True, addUser_calls = []\<rparr>"

fun handleInput :: "input_name \<Rightarrow> string \<Rightarrow> SignUp_state \<Rightarrow> SignUp_state" where
  "handleInput Username v st = st\<lparr>inputState := (inputState st)\<lparr>username_input := v\<rparr>\<rparr>"
| "handleInput Password v st = st\<lparr>inputState := (inputState st)\<lparr>password := v\<rparr>\<rparr>"
| "handleInput CnfPassword v st = st\<lparr>inputState := (inputState st)\<lparr>cnfPassword := v\<rparr>\<rparr>"

text \<open>The effect, with its early returns in source order.\<close>

definition SignUp_effect :: "SignUp_state \<Rightarrow> SignUp_state" where
  "SignUp_effect st =
     (let i = inputState st in
      if password i \<noteq> cnfPassword i then st\<lparr>isDisabled := True\<rparr>
      else if password i = '''' \<or> cnfPassword i = '''' then st\<lparr>isDisabled := True\<rparr>
      else if username_input i = '''' then st\<lparr>isDisabled := True\<rparr>
      else st\<lparr>isDisabled := False\<rparr>)"

definition handleSignup :: "SignUp_state \<Rightarrow> SignUp_state" where
  "handleSignup st =
     (let newUser = \<lparr>new_username = trim (username_input (inputState st)),
                     new_password = trim (password (inputState st))\<rparr>
      in st\<lparr>addUser_calls := addUser_calls st @ [newUser]\<rparr>)"

text \<open>
  What the user can do. Typing into an input sets the state; the component renders again
  and the effect runs (its dependency list holds \<open>handleInput\<close>, a new function at every
  render, so it runs after every render) before the next event is handled. A click on the
  submit button invokes \<open>handleSignup\<close> unless the button is disabled.
\<close>

datatype SignUp_event = Input input_name string | Click_submit

fun SignUp_step :: "SignUp_state \<Rightarrow> SignUp_event \<Rightarrow> SignUp_state" where
  "SignUp_step st (Input n v) = SignUp_effect (handleInput n v st)"
| "SignUp_step st Click_submit = (if isDisabled st then st else handleSignup st)"

definition SignUp_run :: "SignUp_event list \<Rightarrow> SignUp_state" where
  "SignUp_run evs = foldl SignUp_step (SignUp_effect SignUp_initial) evs"


section \<open>The language store\<close>

text \<open>
  \<open>JSON.stringify\<close> of a string (QuoteJSONString): the text between two double quotes,
  where the double quote, the backslash and the control characters are escaped, the
  control characters without a short form as \<open>\u00XX\<close> with lowercase hex digits.
\<close>

definition dquote :: char where
  "dquote = CHR 0x22"

definition bslash :: char where
  "bslash = CHR 0x5C"

definition hex_digit :: "nat \<Rightarrow> char" where
  "hex_digit d = (if d < 10 then char_of (48 + d) else char_of (87 + d))"

definition quote_code_unit :: "char \<Rightarrow> string" where
  "quote_code_unit c =
     (let n = (of_char c :: nat) in
      if n = 8 then [bslash, CHR ''b'']
      else if n = 9 then [bslash, CHR ''t'']
      else if n = 10 then [bslash, CHR ''n'']
      else if n = 12 then [bslash, CHR ''f'']
      else if n = 13 then [bslash, CHR ''r'']
      else if n = 34 then [bslash, dquote]
      else if n = 92 then [bslash, bslash]
      else if n < 32 then
        [bslash, CHR ''u'', CHR ''0'', CHR ''0'', hex_digit (n div 16), hex_digit (n mod 16)]
      else [c])"

definition JSON_stringify :: "string \<Rightarrow> string" where
  "JSON_stringify s = dquote # concat (map quote_code_unit s) @ [dquote]"

text \<open>
  \<open>JSON.parse\<close>, as far as the store needs it. A text whose first character after white
  space is a double quote is a string literal or a syntax error, and is parsed in full.
  Any other text is another JSON value (a number, \<open>null\<close>, an object ...) or a syntax
  error; the model does not tell which and answers \<open>Not_a_string\<close>, as it does for a
  literal with a \<open>\uXXXX\<close> escape of a code unit that does not fit a byte.
\<close>

datatype JSON_parse_result = String_value string | Throws_SyntaxError | Not_a_string

definition hex_value :: "char \<Rightarrow> nat option" where
  "hex_value c =
     (let n = (of_char c :: nat) in
      if 48 \<le> n \<and> n \<le> 57 then Some (n - 48)
      else if 97 \<le> n \<and> n \<le> 102 then Some (n - 87)
      else if 65 \<le> n \<and> n \<le> 70 then Some (n - 55)
      else None)"

definition hex4 :: "char \<Rightarrow> char \<Rightarrow> char \<Rightarrow> char \<Rightarrow> nat option" where
  "hex4 a b c d =
     (case (hex_value a, hex_value b, hex_value c, hex_value d) of
        (Some w, Some x, Some y, Some z) \<Rightarrow> Some (((w * 16 + x) * 16 + y) * 16 + z)
      | _ \<Rightarrow> None)"

definition simple_escape :: "char \<Rightarrow> char option" where
  "simple_escape e =
     (if e = dquote then Some dquote
      else if e = bslash then Some bslash
      else if e = CHR ''/'' then Some CHR ''/''
      else if e = CHR ''b'' then Some (CHR 0x08)
      else if e = CHR ''f'' then Some (CHR 0x0C)
      else if e = CHR ''n'' then Some (CHR 0x0A)
      else if e = CHR ''r'' then Some (CHR 0x0D)
      else if e = CHR ''t'' then Some (CHR 0x09)
      else None)"

datatype unquoted = Closed string string | Malformed | Beyond_byte string

text \<open>
  The characters of a string literal after its opening quote, up to the closing quote:
  the decoded string and the text left over.
\<close>

fun prepend :: "char \<Rightarrow> unquoted \<Rightarrow> unquoted" where
  "prepend c (Closed s rest) = Closed (c # s) rest"
| "prepend c Malformed = Malformed"
| "prepend c (Beyond_byte rest) = Beyond_byte rest"

fun unquote :: "string \<Rightarrow> unquoted" where
  "unquote [] = Malformed"
| "unquote (c # cs) =
     (if c = dquote then Closed [] cs
      else if c = bslash then
        (case cs of
           [] \<Rightarrow> Malformed
         | e # cs' \<Rightarrow>
             if e = CHR ''u'' then
               (case cs' of
                  h1 # h2 # h3 # h4 # cs'' \<Rightarrow>
                    (case hex4 h1 h2 h3 h4 of
                       None \<Rightarrow> Malformed
                     | Some n \<Rightarrow>
                         (case unquote cs'' of
                            Malformed \<Rightarrow> Malformed
                          | Closed s rest \<Rightarrow>
                              if n < 256 then Closed (char_of n # s) rest else Beyond_byte rest
                          | Beyond_byte rest \<Rightarrow> Beyond_byte rest))
                | _ \<Rightarrow> Malformed)
             else
               (case simple_escape e of
                  None \<Rightarrow> Malformed
                | Some d \<Rightarrow> prepend d (unquote cs')))
      else if (of_char c :: nat) < 32 then Malformed
      else prepend c (unquote cs))"

definition is_json_ws :: "char \<Rightarrow> bool" where
  "is_json_ws c = ((of_char c :: nat) \<in> {9, 10, 13, 32})"

definition JSON_parse :: "string \<Rightarrow> JSON_parse_result" where
  "JSON_parse text =
     (case dropWhile is_json_ws text of
        [] \<Rightarrow> Throws_SyntaxError
      | q # cs \<Rightarrow>
          if q = dquote then
            (case unquote cs of
               Closed s rest \<Rightarrow>
                 if dropWhile is_json_ws rest = [] then String_value s else Throws_SyntaxError
             | Malformed \<Rightarrow> Throws_SyntaxError
             | Beyond_byte rest \<Rightarrow>
                 if dropWhile is_json_ws rest = [] then Not_a_string else Throws_SyntaxError)
          else Not_a_string)"

text \<open>
  The browser as the store sees it, and the store. \<open>lang\<close> is declared of type
  \<open>Language = 'en' | 'zh'\<close>, but holds whatever string the initializer computes.
\<close>

record browser =
  localStorage :: "string \<rightharpoonup> string"
  navigator_language :: string
  navigator_languages :: "string list"

record I18nType =
  lang_of :: string

definition is_Language :: "string \<Rightarrow> bool" where
  "is_Language l = (l = ''en'' \<or> l = ''zh'')"

definition before_hyphen :: "string \<Rightarrow> string" where
  "before_hyphen b = takeWhile (\<lambda>c. c \<noteq> CHR ''-'') b"

datatype initial_lang = Lang string | Throws_TypeError | Throws_Syntax | Lang_not_a_string

text \<open>
  The initializer of \<open>lang\<close>. \<open>navigator.language || navigator.languages[0]\<close> takes the
  first entry of \<open>languages\<close> when \<open>language\<close> is the empty string; when there is no first
  entry either, \<open>split\<close> is called on \<open>undefined\<close> and throws. \<open>split('-')[0]\<close> is the text
  before the first hyphen, all of it when there is none.
\<close>

definition initial_lang :: "browser \<Rightarrow> initial_lang" where
  "initial_lang w =
     (case localStorage w ''language'' of
        Some stored \<Rightarrow>
          (case JSON_parse stored of
             String_value s \<Rightarrow> Lang s
           | Throws_SyntaxError \<Rightarrow> Throws_Syntax
           | Not_a_string \<Rightarrow> Lang_not_a_string)
      | None \<Rightarrow>
          (let browserLanguage =
                 (if navigator_language w \<noteq> [] then Some (navigator_language w)
                  else (case navigator_languages w of [] \<Rightarrow> None | l # _ \<Rightarrow> Some l))
           in case browserLanguage of
                None \<Rightarrow> Throws_TypeError
              | Some b \<Rightarrow> Lang (before_hyphen b)))"

definition setLanguage :: "string \<Rightarrow> browser \<times> I18nType \<Rightarrow> browser \<times> I18nType" where
  "setLanguage l ws =
     (case ws of (w, store) \<Rightarrow>
        (w\<lparr>localStorage := (localStorage w)(''language'' \<mapsto> JSON_stringify l)\<rparr>,
         store\<lparr>lang_of := l\<rparr>))"


text \<open>
  Two browsers with nothing stored: one reports the language \<open>fr-FR\<close>, the other reports
  an empty \<open>navigator.language\<close> and \<open>fr-FR\<close> as the first of \<open>navigator.languages\<close>.
\<close>

definition french_browser :: browser where
  "french_browser =
     \<lparr>localStorage = Map.empty, navigator_language = ''fr-FR'', navigator_languages = [''fr-FR'']\<rparr>"

definition browser_without_language :: browser where
  "browser_without_language =
     \<lparr>localStorage = Map.empty, navigator_language = [], navigator_languages = [''fr-FR'']\<rparr>"


section \<open>The locale hooks\<close>

text \<open>
  \<open>useMemo(create, deps)\<close>: the hook keeps the dependencies and the value of the render
  that computed it. On the first render there is nothing kept and \<open>create\<close> runs; on a later
  render \<open>create\<close> runs again only if some dependency differs from the one kept.
\<close>

type_synonym ('d, 'a) memo = "('d list \<times> 'a) option"

definition areHookInputsEqual :: "'d list \<Rightarrow> 'd list \<Rightarrow> bool" where
  "areHookInputsEqual nextDeps prevDeps = (nextDeps = prevDeps)"

definition useMemo ::
  "(unit \<Rightarrow> 'a) \<Rightarrow> 'd list \<Rightarrow> ('d, 'a) memo \<Rightarrow> 'a \<times> ('d, 'a) memo" where
  "useMemo create deps kept =
     (case kept of
        None \<Rightarrow> (let v = create () in (v, Some (deps, v)))
      | Some (prevDeps, prev) \<Rightarrow>
          if areHookInputsEqual deps prevDeps then (prev, kept)
          else (let v = create () in (v, Some (deps, v))))"

text \<open>
  The two hooks. The object literal is the list of its keys and values in source order; the
  dependency list of both is the empty list \<^verbatim>\<open>[]\<close>.
\<close>

definition messageLocale :: "translation \<Rightarrow> (string \<times> string) list" where
  "messageLocale t =
     [(''DEFAULT_TABLE_ALERT_MSG'', t ''messages.alertMessage''),
      (''DEFAULT_TABLE_ALERT_TITLE'', t ''messages.noData''),
      (''NO_COLUMN_DEFINITION_ALERT_TITLE'', t ''messages.noColumnDefinitionTitle''),
      (''NO_COLUMN_DEFINITION_ALERT_DESCRIPTION'', t ''messages.noColumnDefinitionDescription''),
      (''FS_ERROR_TEXT'', t ''messages.fsErrorText''),
      (''ERROR_UPDATING_COMPONENT'', t ''messages.errorUpdatingComponent''),
      (''TITLE_ERROR_UPDATING_COMPONENT'', t ''messages.titleErrorUpdatingComponent''),
      (''EMPTY_INPUT_SEND_MESSAGE'', t ''messages.emptyInputSend''),
      (''EMPTY_OUTPUT_SEND_MESSAGE'', t ''messages.emptyOutputSend''),
      (''CSV_VIEW_ERROR_TITLE'', t ''messages.csvViewErrorTitle''),
      (''CSV_NO_DATA_ERROR'', t ''messages.csvNoDataError''),
      (''PDF_VIEW_CONSTANT'', t ''messages.pdfViewConstant''),
      (''CSV_ERROR'', t ''messages.csvError''),
      (''PDF_LOAD_ERROR_TITLE'', t ''messages.pdfLoadErrorTitle''),
      (''PDF_CHECK_FLOW'', t ''messages.pdfCheckFlow''),
      (''PDF_ERROR_TITLE'', t ''messages.pdfErrorTitle''),
      (''PDF_LOAD_ERROR'', t ''messages.pdfLoadError''),
      (''IMG_VIEW_CONSTANT'', t ''messages.imgViewConstant''),
      (''IMG_VIEW_ERROR_MSG'', t ''messages.imgViewErrorMsg''),
      (''IMG_VIEW_ERROR_TITLE'', t ''messages.imgViewErrorTitle''),
      (''FLOW_BUILT_FAILED'', t ''messages.flowBuildFailed''),
      (''FLOW_BUILT_SUCCESSFULLY'', t ''messages.flowBuiltSuccessfully'')]"

definition useMessageLocale ::
  "translation \<Rightarrow> (translation, (string \<times> string) list) memo
     \<Rightarrow> (string \<times> string) list \<times> (translation, (string \<times> string) list) memo" where
  "useMessageLocale t kept = useMemo (\<lambda>_. messageLocale t) [] kept"

definition formLocale :: "translation \<Rightarrow> (string \<times> string) list" where
  "formLocale t =
     [(''DEFAULT_PLACEHOLDER'', t ''forms.defaultPlaceholder''),
      (''RECEIVING_INPUT_VALUE'', t ''forformsm.receivingInputValue''),
      (''SELECT_AN_OPTION'', t ''forms.selectOptions''),
      (''DEFAULT_TOOLSET_PLACEHOLDER'', t ''forms.defaultToolsetPlaceholder''),
      (''EDIT_TEXT_PLACEHOLDER'', t ''forms.editTextPlaceholder''),
      (''EDIT_TEXT_MODAL_TITLE'', t ''forms.editTextModalTitle''),
      (''TEXT_DIALOG_TITLE'', t ''forms.textDialogTitle'')]"

definition useFormLocale ::
  "translation \<Rightarrow> (translation, (string \<times> string) list) memo
     \<Rightarrow> (string \<times> string) list \<times> (translation, (string \<times> string) list) memo" where
  "useFormLocale t kept = useMemo (\<lambda>_. formLocale t) [] kept"


section \<open>regexHighlight\<close>

text \<open>
  The regular expressions the constant is built from: a literal character, a negated
  character class, \<open>[\s\S]\<close> (any character), sequence, alternative, the star (greedy
  \<open>r*\<close> or lazy \<open>r*?\<close>) and a numbered capture group. \<open>r+\<close> is \<open>r\<close> followed by \<open>r*\<close>.
\<close>

datatype regex =
    Lit char
  | NoneOf "char list"
  | AnyChar
  | Seq regex regex
  | Alt regex regex
  | Star bool regex
  | Group nat regex

definition Plus :: "regex \<Rightarrow> regex" where
  "Plus r = Seq r (Star True r)"

type_synonym captures = "nat \<rightharpoonup> string"

text \<open>
  The backtracking matcher. \<open>ms r s c\<close> lists, in the order the engine tries them, the ways
  \<open>r\<close> can match at the start of \<open>s\<close> given the captures \<open>c\<close> so far: what is left of \<open>s\<close> and
  the captures afterwards. The engine takes the first way that lets the rest of the
  pattern match. A greedy star tries one more iteration before it tries to stop, a lazy
  star the other way round; an iteration that consumes nothing is rejected.
\<close>

fun ms :: "regex \<Rightarrow> string \<Rightarrow> captures \<Rightarrow> (string \<times> captures) list" where
  "ms (Lit a) s c = (case s of [] \<Rightarrow> [] | x # xs \<Rightarrow> if x = a then [(xs, c)] else [])"
| "ms (NoneOf as) s c = (case s of [] \<Rightarrow> [] | x # xs \<Rightarrow> if x \<notin> set as then [(xs, c)] else [])"
| "ms AnyChar s c = (case s of [] \<Rightarrow> [] | x # xs \<Rightarrow> [(xs, c)])"
| "ms (Seq r1 r2) s c = concat (map (\<lambda>(s', c'). ms r2 s' c') (ms r1 s c))"
| "ms (Alt r1 r2) s c = ms r1 s c @ ms r2 s c"
| "ms (Star greedy r) s c =
     (let more = concat (map (\<lambda>(s', c'). if length s' < length s then ms (Star greedy r) s' c' else [])
                          (ms r s c))
      in if greedy then more @ [(s, c)] else (s, c) # more)"
| "ms (Group n r) s c =
     map (\<lambda>(s', c'). (s', c'(n \<mapsto> take (length s - length s') s))) (ms r s c)"

definition backtick :: char where
  "backtick = CHR 0x60"

text \<open>\<^verbatim>\<open>/(```[\s\S]*?```)|(\{+)([^{}]+)(\}+)/g\<close>\<close>

definition fenced_code_block :: regex where
  "fenced_code_block =
     Group 1
       (Seq (Lit backtick) (Seq (Lit backtick) (Seq (Lit backtick)
          (Seq (Star False AnyChar)
             (Seq (Lit backtick) (Seq (Lit backtick) (Lit backtick)))))))"

definition braced_variable :: regex where
  "braced_variable =
     Seq (Group 2 (Plus (Lit CHR ''{'')))
       (Seq (Group 3 (Plus (NoneOf ''{}'')))
          (Group 4 (Plus (Lit CHR ''}''))))"

definition regexHighlight :: regex where
  "regexHighlight = Alt fenced_code_block braced_variable"

text \<open>
  One match: where it starts, the text matched and the groups. \<open>exec_from r i s\<close> is
  \<open>r.exec\<close> on a string of which \<open>s\<close> is the part from position \<open>i\<close> on: the first position
  from \<open>i\<close> at which \<open>r\<close> matches, with the first way it matches there.
\<close>

record regex_match =
  index :: nat
  matched :: string
  groups :: captures

fun exec_from :: "regex \<Rightarrow> nat \<Rightarrow> string \<Rightarrow> regex_match option" where
  "exec_from r i s =
     (case ms r s Map.empty of
        (rest, c) # _ \<Rightarrow> Some \<lparr>index = i, matched = take (length s - length rest) s, groups = c\<rparr>
      | [] \<Rightarrow> (case s of [] \<Rightarrow> None | _ # s' \<Rightarrow> exec_from r (Suc i) s'))"

text \<open>
  All matches of a global regular expression, as \<open>matchAll\<close> and \<open>replace\<close> visit them: the
  search goes on behind the last match, one position further after an empty match.
\<close>

function all_matches :: "regex \<Rightarrow> nat \<Rightarrow> string \<Rightarrow> regex_match list" where
  "all_matches r i s =
     (case exec_from r i s of
        None \<Rightarrow> []
      | Some m \<Rightarrow>
          (let k = index m - i + max 1 (length (matched m))
           in if k \<le> length s then m # all_matches r (i + k) (drop k s) else [m]))"
  by pat_completeness auto
termination
  by (relation "measure (\<lambda>(r, i, s). length s)") auto

text \<open>The two kinds of match the constant's comment describes.\<close>

definition fenced_shape :: "regex_match \<Rightarrow> bool" where
  "fenced_shape m =
     (groups m 1 = Some (matched m)
      \<and> 6 \<le> length (matched m)
      \<and> take 3 (matched m) = replicate 3 backtick
      \<and> drop (length (matched m) - 3) (matched m) = replicate 3 backtick
      \<and> groups m 2 = None \<and> groups m 3 = None \<and> groups m 4 = None)"

definition variable_shape :: "regex_match \<Rightarrow> bool" where
  "variable_shape m =
     (groups m 1 = None
      \<and> (case (groups m 2, groups m 3, groups m 4) of
            (Some p2, Some p3, Some p4) \<Rightarrow>
              matched m = p2 @ p3 @ p4
              \<and> p2 \<noteq> [] \<and> list_all (\<lambda>x. x = CHR ''{'') p2
              \<and> p3 \<noteq> [] \<and> list_all (\<lambda>x. x \<noteq> CHR ''{'' \<and> x \<noteq> CHR ''}'') p3
              \<and> p4 \<noteq> [] \<and> list_all (\<lambda>x. x = CHR ''}'') p4
          | _ \<Rightarrow> False))"


section \<open>Theorems\<close>

subsection \<open>GenericErrorComponent\<close>

text \<open>
  C3. For every value of \<open>healthCheckTimeout\<close>, the component renders the server-fetch
  error component exactly when the value is the string "serverDown", the timeout error
  component exactly when it is the string "timeout", and the empty fragment for every
  other value, among them \<open>null\<close> and \<open>undefined\<close>.
\<close>

theorem GenericErrorComponent_switch:
  "(tag (GenericErrorComponent t h fetching retry) = ''CustomFetchErrorComponent''
      \<longleftrightarrow> h = JString ''serverDown'')
   \<and> (tag (GenericErrorComponent t h fetching retry) = ''TimeoutErrorComponent''
      \<longleftrightarrow> h = JString ''timeout'')
   \<and> (h \<noteq> JString ''serverDown'' \<and> h \<noteq> JString ''timeout''
      \<longrightarrow> GenericErrorComponent t h fetching retry = Fragment)
   \<and> GenericErrorComponent t JNull fetching retry = Fragment
   \<and> GenericErrorComponent t JUndefined fetching retry = Fragment"
  by (simp add: GenericErrorComponent_def Fragment_def)

theorem GenericErrorComponent_switch_witness:
  "JString ''starting'' \<noteq> JString ''serverDown''
   \<and> JString ''starting'' \<noteq> JString ''timeout''
   \<and> GenericErrorComponent (\<lambda>k. k) (JString ''starting'') False True = Fragment
   \<and> tag (GenericErrorComponent (\<lambda>k. k) (JString ''timeout'') False True)
       = ''TimeoutErrorComponent''"
  using GenericErrorComponent_switch [of "\<lambda>k. k" "JString ''starting''" False True]
    GenericErrorComponent_switch [of "\<lambda>k. k" "JString ''timeout''" False True]
  by simp

subsection \<open>PlaygroundButton\<close>

text \<open>
  C5. For every props value, PlaygroundButton renders the playground modal wrapping the
  active button exactly when \<open>hasIO\<close> is true, and the disabled button inside the
  explanatory tooltip exactly when \<open>hasIO\<close> is false; exactly one of the two is rendered.
\<close>

theorem PlaygroundButton_hasIO:
  "(renders_playground_modal flag t (PlaygroundButton flag t p) \<longleftrightarrow> hasIO p)
   \<and> (renders_disabled_tooltip flag t (PlaygroundButton flag t p) \<longleftrightarrow> \<not> hasIO p)
   \<and> (renders_playground_modal flag t (PlaygroundButton flag t p)
        \<noteq> renders_disabled_tooltip flag t (PlaygroundButton flag t p))"
  by (simp add: PlaygroundButton_def renders_playground_modal_def
      renders_disabled_tooltip_def get_prop_def)

theorem PlaygroundButton_hasIO_witness:
  "renders_playground_modal True (\<lambda>k. k)
     (PlaygroundButton True (\<lambda>k. k)
        \<lparr>hasIO = True, open_prop = False, setOpen = (), canvasOpen = True\<rparr>)
   \<and> renders_disabled_tooltip True (\<lambda>k. k)
     (PlaygroundButton True (\<lambda>k. k)
        \<lparr>hasIO = False, open_prop = False, setOpen = (), canvasOpen = True\<rparr>)"
  using PlaygroundButton_hasIO [of True "\<lambda>k. k"
      "\<lparr>hasIO = True, open_prop = False, setOpen = (), canvasOpen = True\<rparr>"]
    PlaygroundButton_hasIO [of True "\<lambda>k. k"
      "\<lparr>hasIO = False, open_prop = False, setOpen = (), canvasOpen = True\<rparr>"]
  by simp

subsection \<open>NoInputView\<close>

text \<open>
  C6. For every props value, NoInputView renders exactly one button: when \<open>isBuilding\<close> is
  false, the run button, whose click handler invokes \<open>sendMessage\<close> with \<open>repeat = 1\<close>;
  when \<open>isBuilding\<close> is true, the stop button, whose click handler is \<open>stopBuilding\<close>.
\<close>

theorem NoInputView_one_button:
  "\<exists>b. elements_named ''Button'' (NoInputView t p) = [b]
     \<and> (\<not> isBuilding p \<longrightarrow>
          get_prop b ''data-testid'' = Some (PString ''button-send'')
          \<and> get_prop b ''onClick'' = Some (PValue (sendMessage p \<lparr>repeat = 1\<rparr>)))
     \<and> (isBuilding p \<longrightarrow>
          get_prop b ''data-testid'' = Some (PString ''button-stop'')
          \<and> get_prop b ''onClick'' = Some (PValue (stopBuilding p)))"
  by (simp add: NoInputView_def get_prop_def)

theorem NoInputView_one_button_witness:
  "\<exists>b. elements_named ''Button''
         (NoInputView (\<lambda>k. k)
            \<lparr>isBuilding = False, sendMessage = (\<lambda>a w. w + repeat a), stopBuilding = (\<lambda>w. 0)\<rparr>)
       = [b]
     \<and> (\<exists>f. get_prop b ''onClick'' = Some (PValue f) \<and> f (41::nat) = 42)"
  using NoInputView_one_button [of "\<lambda>k. k"
      "\<lparr>isBuilding = False, sendMessage = (\<lambda>a w. w + repeat a), stopBuilding = (\<lambda>w. 0)\<rparr>"]
  by auto


subsection \<open>AdminPage\<close>

lemma includes_iff_sublist: "includes_str s x \<longleftrightarrow> sublist x s"
  by (induction s) (auto simp: sublist_Cons_right)

text \<open>
  C4. For every fetched list \<open>L\<close> and every filter string \<open>s\<close>, handleFilterUsers displays
  all of \<open>L\<close> when \<open>s\<close> is empty, and otherwise exactly the users of \<open>L\<close> whose lowercased
  username contains the lowercased \<open>s\<close>, in their original order; the stored list is not
  changed, so clearing the input restores the full list.
\<close>

theorem handleFilterUsers_filter:
  "filterUserList (handleFilterUsers s st) =
     (if s = [] then userList st
      else filter (\<lambda>u. includes_str (toLowerCase (username u)) (toLowerCase s)) (userList st))
   \<and> (\<forall>u. includes_str (toLowerCase (username u)) (toLowerCase s)
          = (\<exists>pre post. toLowerCase (username u) = pre @ toLowerCase s @ post))
   \<and> userList (handleFilterUsers s st) = userList st
   \<and> filterUserList (handleFilterUsers [] (handleFilterUsers s st)) = userList st"
  by (simp add: handleFilterUsers_def Let_def includes_iff_sublist sublist_def)

theorem handleFilterUsers_filter_witness:
  "filterUserList
     (handleFilterUsers ''AL''
        \<lparr>inputValue = [],
         userList = [\<lparr>user_id = ''1'', username = ''Alice''\<rparr>,
                     \<lparr>user_id = ''2'', username = ''Bob''\<rparr>,
                     \<lparr>user_id = ''3'', username = ''Walter''\<rparr>],
         filterUserList = []\<rparr>)
   = [\<lparr>user_id = ''1'', username = ''Alice''\<rparr>, \<lparr>user_id = ''3'', username = ''Walter''\<rparr>]
   \<and> filterUserList
     (handleFilterUsers [CHR 0xE9]
        \<lparr>inputValue = [],
         userList = [\<lparr>user_id = ''1'', username = CHR 0xC9 # ''cole''\<rparr>,
                     \<lparr>user_id = ''2'', username = ''ecole''\<rparr>],
         filterUserList = []\<rparr>)
   = [\<lparr>user_id = ''1'', username = CHR 0xC9 # ''cole''\<rparr>]"
proof -
  have lower: "toLowerCase ''AL'' = ''al''" "toLowerCase ''Alice'' = ''alice''"
    "toLowerCase ''Bob'' = ''bob''" "toLowerCase ''Walter'' = ''walter''"
    "toLowerCase [CHR 0xE9] = [CHR 0xE9]" "toLowerCase (CHR 0xC9 # ''cole'') = CHR 0xE9 # ''cole''"
    "toLowerCase ''ecole'' = ''ecole''"
    by code_simp+
  from handleFilterUsers_filter [of "''AL''"
      "\<lparr>inputValue = [],
        userList = [\<lparr>user_id = ''1'', username = ''Alice''\<rparr>,
                    \<lparr>user_id = ''2'', username = ''Bob''\<rparr>,
                    \<lparr>user_id = ''3'', username = ''Walter''\<rparr>],
        filterUserList = []\<rparr>", THEN conjunct1]
    handleFilterUsers_filter [of "[CHR 0xE9]"
      "\<lparr>inputValue = [],
        userList = [\<lparr>user_id = ''1'', username = CHR 0xC9 # ''cole''\<rparr>,
                    \<lparr>user_id = ''2'', username = ''ecole''\<rparr>],
        filterUserList = []\<rparr>", THEN conjunct1]
  show ?thesis
    by (simp add: lower)
qed

subsection \<open>handlePublishedSwitch\<close>

text \<open>
  C10. When the PATCH succeeds and the flows list is defined, the flows list is replaced by
  a list of the same length in which every element whose id is the updated flow's id is
  the updated flow and every other element is unchanged, and the current flow becomes the
  updated flow. When the flows list is undefined, the flows list and the current flow stay
  as they are and an error alert is set.
\<close>

theorem handlePublishedSwitch_success:
  assumes "patch (case manager_currentFlow st of Some f \<Rightarrow> flow_id f | None \<Rightarrow> '''',
                  if checked then ''PRIVATE'' else ''PUBLIC'') = Inr u"
  shows "(\<forall>fs. manager_flows st = Some fs \<longrightarrow>
            (\<exists>fs'. manager_flows (handlePublishedSwitch t patch checked st) = Some fs'
               \<and> length fs' = length fs
               \<and> (\<forall>i < length fs.
                     fs' ! i = (if flow_id (fs ! i) = flow_id u then u else fs ! i)))
            \<and> flowStore_currentFlow (handlePublishedSwitch t patch checked st) = Some u
            \<and> alert_errorData (handlePublishedSwitch t patch checked st) = alert_errorData st)
       \<and> (manager_flows st = None \<longrightarrow>
            manager_flows (handlePublishedSwitch t patch checked st) = None
            \<and> flowStore_currentFlow (handlePublishedSwitch t patch checked st)
                = flowStore_currentFlow st
            \<and> manager_currentFlow (handlePublishedSwitch t patch checked st)
                = manager_currentFlow st
            \<and> alert_errorData (handlePublishedSwitch t patch checked st)
                = Some \<lparr>title = t ''flow.share.error.saveFailedTitle'',
                        list = [t ''flow.share.error.flowsUndefined'']\<rparr>)"
  using assms
  by (simp add: handlePublishedSwitch_def publish_onSuccess_def setFlows_def
      setCurrentFlow_def setErrorData_def Let_def)

theorem handlePublishedSwitch_success_witness:
  "manager_flows
     (handlePublishedSwitch (\<lambda>k. k)
        (\<lambda>(i, a). Inr \<lparr>flow_id = i, flow_name = ''b'', access_type = a\<rparr>) False
        \<lparr>manager_currentFlow = Some \<lparr>flow_id = ''2'', flow_name = ''b'', access_type = ''PRIVATE''\<rparr>,
         manager_flows = Some [\<lparr>flow_id = ''1'', flow_name = ''a'', access_type = ''PRIVATE''\<rparr>,
                               \<lparr>flow_id = ''2'', flow_name = ''b'', access_type = ''PRIVATE''\<rparr>],
         flowStore_currentFlow = None,
         alert_errorData = None\<rparr>)
   = Some [\<lparr>flow_id = ''1'', flow_name = ''a'', access_type = ''PRIVATE''\<rparr>,
           \<lparr>flow_id = ''2'', flow_name = ''b'', access_type = ''PUBLIC''\<rparr>]"
  using handlePublishedSwitch_success [of
      "\<lambda>(i, a). Inr \<lparr>flow_id = i, flow_name = ''b'', access_type = a\<rparr>"
      "\<lparr>manager_currentFlow = Some \<lparr>flow_id = ''2'', flow_name = ''b'', access_type = ''PRIVATE''\<rparr>,
        manager_flows = Some [\<lparr>flow_id = ''1'', flow_name = ''a'', access_type = ''PRIVATE''\<rparr>,
                              \<lparr>flow_id = ''2'', flow_name = ''b'', access_type = ''PRIVATE''\<rparr>],
        flowStore_currentFlow = None,
        alert_errorData = None\<rparr>"
      False "\<lparr>flow_id = ''2'', flow_name = ''b'', access_type = ''PUBLIC''\<rparr>" "\<lambda>k. k"]
  by (simp add: handlePublishedSwitch_def publish_onSuccess_def setFlows_def
      setCurrentFlow_def Let_def)

subsection \<open>useSwitchLocale\<close>

text \<open>
  C2. For every payload, one invocation of the mutation function sends exactly one request,
  a PUT to \<open>getURL("LOCALE")\<close> followed by \<open>/switch/\<close> carrying that payload, and resolves
  to the \<open>data\<close> of the response unchanged; a rejected request is passed on as it is and is
  not sent again.
\<close>

theorem switchLocale_one_put:
  "snd (switchLocale_mutationFn getURL srv payload sent)
     = sent @ [\<lparr>http_method = ''PUT'', url = getURL ''LOCALE'' @ ''/switch/'', body = payload\<rparr>]
   \<and> fst (switchLocale_mutationFn getURL srv payload sent)
     = (case srv \<lparr>http_method = ''PUT'', url = getURL ''LOCALE'' @ ''/switch/'', body = payload\<rparr>
        of Inl e \<Rightarrow> Inl e | Inr r \<Rightarrow> Inr (data r))"
  by (simp add: switchLocale_mutationFn_def switchLocaleFn_def api_put_def Let_def
      split: sum.splits)

theorem switchLocale_one_put_witness:
  "switchLocale_mutationFn (\<lambda>k. ''/api/v1/locale'')
     (\<lambda>r. if lang (body r) = ''zh'' then Inr \<lparr>data = ''ok'', status = 200\<rparr>
           else Inl (HttpError ''500'')) \<lparr>lang = ''zh''\<rparr> []
     = (Inr ''ok'', [\<lparr>http_method = ''PUT'', url = ''/api/v1/locale/switch/'', body = \<lparr>lang = ''zh''\<rparr>\<rparr>])
   \<and> switchLocale_mutationFn (\<lambda>k. ''/api/v1/locale'')
     (\<lambda>r. if lang (body r) = ''zh'' then Inr \<lparr>data = ''ok'', status = 200\<rparr>
           else Inl (HttpError ''500'')) \<lparr>lang = ''en''\<rparr> []
     = (Inl (HttpError ''500''),
        [\<lparr>http_method = ''PUT'', url = ''/api/v1/locale/switch/'', body = \<lparr>lang = ''en''\<rparr>\<rparr>])"
  using switchLocale_one_put [of "\<lambda>k. ''/api/v1/locale''"
      "\<lambda>r. if lang (body r) = ''zh'' then Inr \<lparr>data = ''ok'', status = (200::nat)\<rparr>
            else Inl (HttpError ''500'')" "\<lparr>lang = ''zh''\<rparr>" "[]"]
    switchLocale_one_put [of "\<lambda>k. ''/api/v1/locale''"
      "\<lambda>r. if lang (body r) = ''zh'' then Inr \<lparr>data = ''ok'', status = (200::nat)\<rparr>
            else Inl (HttpError ''500'')" "\<lparr>lang = ''en''\<rparr>" "[]"]
  by (simp add: prod_eq_iff)


subsection \<open>SignUp\<close>

lemma SignUp_effect_disabled:
  "isDisabled (SignUp_effect st) \<longleftrightarrow>
     password (inputState st) \<noteq> cnfPassword (inputState st)
     \<or> password (inputState st) = '''' \<or> cnfPassword (inputState st) = ''''
     \<or> username_input (inputState st) = ''''"
  by (simp add: SignUp_effect_def Let_def)

lemma SignUp_effect_inputState: "inputState (SignUp_effect st) = inputState st"
  by (simp add: SignUp_effect_def Let_def)

lemma SignUp_step_invariant:
  assumes "isDisabled st \<longleftrightarrow>
     password (inputState st) \<noteq> cnfPassword (inputState st)
     \<or> password (inputState st) = '''' \<or> cnfPassword (inputState st) = ''''
     \<or> username_input (inputState st) = ''''"
  shows "isDisabled (SignUp_step st ev) \<longleftrightarrow>
     password (inputState (SignUp_step st ev)) \<noteq> cnfPassword (inputState (SignUp_step st ev))
     \<or> password (inputState (SignUp_step st ev)) = ''''
     \<or> cnfPassword (inputState (SignUp_step st ev)) = ''''
     \<or> username_input (inputState (SignUp_step st ev)) = ''''"
proof (cases ev)
  case (Input n v)
  then show ?thesis
    by (simp add: SignUp_effect_disabled SignUp_effect_inputState)
next
  case Click_submit
  with assms show ?thesis
    by (simp add: handleSignup_def Let_def)
qed

lemma SignUp_run_invariant:
  "isDisabled (SignUp_run evs) \<longleftrightarrow>
     password (inputState (SignUp_run evs)) \<noteq> cnfPassword (inputState (SignUp_run evs))
     \<or> password (inputState (SignUp_run evs)) = ''''
     \<or> cnfPassword (inputState (SignUp_run evs)) = ''''
     \<or> username_input (inputState (SignUp_run evs)) = ''''"
proof (induction evs rule: rev_induct)
  case Nil
  show ?case
    by (simp add: SignUp_run_def SignUp_effect_disabled SignUp_effect_inputState)
next
  case (snoc ev evs)
  have "SignUp_run (evs @ [ev]) = SignUp_step (SignUp_run evs) ev"
    by (simp add: SignUp_run_def)
  with SignUp_step_invariant [OF snoc.IH, of ev] show ?case
    by simp
qed

text \<open>
  C9. After the effect has run, the submit button is disabled exactly when the password
  differs from its confirmation, or the password, the confirmation or the username is
  empty. Hence, in every state the page can reach, a click on the submit button invokes
  handleSignup only with a non-empty username and a non-empty password equal to its
  confirmation, and the user it submits holds the trimmed username and password.
\<close>

theorem SignUp_submit_guard:
  "(isDisabled (SignUp_effect st) \<longleftrightarrow>
      password (inputState st) \<noteq> cnfPassword (inputState st)
      \<or> password (inputState st) = [] \<or> cnfPassword (inputState st) = []
      \<or> username_input (inputState st) = [])
   \<and> (isDisabled (SignUp_run evs) \<longrightarrow>
        SignUp_step (SignUp_run evs) Click_submit = SignUp_run evs)
   \<and> (\<not> isDisabled (SignUp_run evs) \<longrightarrow>
        SignUp_step (SignUp_run evs) Click_submit = handleSignup (SignUp_run evs)
        \<and> username_input (inputState (SignUp_run evs)) \<noteq> []
        \<and> password (inputState (SignUp_run evs)) \<noteq> []
        \<and> password (inputState (SignUp_run evs)) = cnfPassword (inputState (SignUp_run evs))
        \<and> addUser_calls (handleSignup (SignUp_run evs))
            = addUser_calls (SignUp_run evs)
              @ [\<lparr>new_username = trim (username_input (inputState (SignUp_run evs))),
                  new_password = trim (password (inputState (SignUp_run evs)))\<rparr>])"
proof -
  let ?st = "SignUp_run evs"
  have calls: "addUser_calls (handleSignup ?st)
      = addUser_calls ?st
        @ [\<lparr>new_username = trim (username_input (inputState ?st)),
            new_password = trim (password (inputState ?st))\<rparr>]"
    by (simp add: handleSignup_def Let_def)
  have disabled: "SignUp_step ?st Click_submit = ?st" if "isDisabled ?st"
    using that by simp
  have enabled: "SignUp_step ?st Click_submit = handleSignup ?st" if "\<not> isDisabled ?st"
    using that by simp
  show ?thesis
    using SignUp_run_invariant [of evs] calls disabled enabled SignUp_effect_disabled [of st]
    by blast
qed

theorem SignUp_submit_guard_witness:
  "\<not> isDisabled
       (SignUp_run [Input Username (CHR 0xA0 # ''ann ''), Input Password ''pw'',
                    Input CnfPassword ''pw''])
   \<and> addUser_calls
       (SignUp_step
          (SignUp_run [Input Username (CHR 0xA0 # ''ann ''), Input Password ''pw'',
                       Input CnfPassword ''pw''])
          Click_submit)
     = [\<lparr>new_username = ''ann'', new_password = ''pw''\<rparr>]
   \<and> isDisabled (SignUp_run [Input Username ''ann'', Input Password ''pw''])
   \<and> addUser_calls
       (SignUp_step (SignUp_run [Input Username ''ann'', Input Password ''pw'']) Click_submit)
     = []"
proof -
  have run: "SignUp_run [Input Username (CHR 0xA0 # ''ann ''), Input Password ''pw'',
                         Input CnfPassword ''pw'']
      = \<lparr>inputState = \<lparr>password = ''pw'', cnfPassword = ''pw'',
                         username_input = CHR 0xA0 # ''ann ''\<rparr>,
         isDisabled = False, addUser_calls = []\<rparr>"
    by (simp add: SignUp_run_def SignUp_initial_def CONTROL_INPUT_STATE_def SignUp_effect_def
        Let_def)
  have run': "SignUp_run [Input Username ''ann'', Input Password ''pw'']
      = \<lparr>inputState = \<lparr>password = ''pw'', cnfPassword = [], username_input = ''ann''\<rparr>,
         isDisabled = True, addUser_calls = []\<rparr>"
    by (simp add: SignUp_run_def SignUp_initial_def CONTROL_INPUT_STATE_def SignUp_effect_def
        Let_def)
  from SignUp_submit_guard
    [of SignUp_initial "[Input Username (CHR 0xA0 # ''ann ''), Input Password ''pw'',
                         Input CnfPassword ''pw'']"]
    SignUp_submit_guard [of SignUp_initial "[Input Username ''ann'', Input Password ''pw'']"]
  show ?thesis
    by (simp add: run run' trim_def is_white_space_def)
qed

subsection \<open>JSON round trip\<close>

lemma hex_value_hex_digit: "d < 16 \<Longrightarrow> hex_value (hex_digit d) = Some d"
  by (auto simp: hex_value_def hex_digit_def Let_def)

lemma hex4_quote: "n < 256 \<Longrightarrow> hex4 CHR ''0'' CHR ''0'' (hex_digit (n div 16)) (hex_digit (n mod 16)) = Some n"
proof -
  assume n: "n < 256"
  have z: "hex_value CHR ''0'' = Some 0" by (simp add: hex_value_def)
  from n have "n div 16 < 16" by simp
  then have a: "hex_value (hex_digit (n div 16)) = Some (n div 16)" by (rule hex_value_hex_digit)
  have b: "hex_value (hex_digit (n mod 16)) = Some (n mod 16)" by (rule hex_value_hex_digit) simp
  show ?thesis by (simp add: hex4_def z a b)
qed

lemma char_of_code: "(of_char c :: nat) = of_char d \<Longrightarrow> c = d"
  by simp

lemma unquote_plain:
  "c \<noteq> dquote \<Longrightarrow> c \<noteq> bslash \<Longrightarrow> \<not> (of_char c :: nat) < 32
     \<Longrightarrow> unquote (c # rest) = prepend c (unquote rest)"
  by simp

lemma unquote_simple:
  "e \<noteq> CHR ''u'' \<Longrightarrow> simple_escape e = Some d
     \<Longrightarrow> unquote (bslash # e # rest) = prepend d (unquote rest)"
  by (simp add: bslash_def dquote_def)

lemma unquote_u00:
  "n < 256 \<Longrightarrow>
   unquote (bslash # CHR ''u'' # CHR ''0'' # CHR ''0'' # hex_digit (n div 16) # hex_digit (n mod 16) # rest)
     = prepend (char_of n) (unquote rest)"
  by (cases "unquote rest") (simp_all add: bslash_def dquote_def hex4_quote)

lemma unquote_quote: "unquote (quote_code_unit c @ rest) = prepend c (unquote rest)"
proof -
  let ?n = "of_char c :: nat"
  consider "?n = 8" | "?n = 9" | "?n = 10" | "?n = 12" | "?n = 13" | "?n = 34" | "?n = 92"
    | (ctl) "?n < 32" "?n \<notin> {8, 9, 10, 12, 13}"
    | (plain) "\<not> ?n < 32" "?n \<noteq> 34" "?n \<noteq> 92"
    by auto
  then show ?thesis
  proof cases
    case 1
    then have "c = CHR 0x08" by (intro char_of_code) simp
    with 1 unquote_simple [of "CHR ''b''" "CHR 0x08" rest] show ?thesis
      by (simp add: quote_code_unit_def simple_escape_def dquote_def bslash_def
          del: unquote.simps)
  next
    case 2
    then have "c = CHR 0x09" by (intro char_of_code) simp
    with 2 unquote_simple [of "CHR ''t''" "CHR 0x09" rest] show ?thesis
      by (simp add: quote_code_unit_def simple_escape_def dquote_def bslash_def
          del: unquote.simps)
  next
    case 3
    then have "c = CHR 0x0A" by (intro char_of_code) simp
    with 3 unquote_simple [of "CHR ''n''" "CHR 0x0A" rest] show ?thesis
      by (simp add: quote_code_unit_def simple_escape_def dquote_def bslash_def
          del: unquote.simps)
  next
    case 4
    then have "c = CHR 0x0C" by (intro char_of_code) simp
    with 4 unquote_simple [of "CHR ''f''" "CHR 0x0C" rest] show ?thesis
      by (simp add: quote_code_unit_def simple_escape_def dquote_def bslash_def
          del: unquote.simps)
  next
    case 5
    then have "c = CHR 0x0D" by (intro char_of_code) simp
    with 5 unquote_simple [of "CHR ''r''" "CHR 0x0D" rest] show ?thesis
      by (simp add: quote_code_unit_def simple_escape_def dquote_def bslash_def
          del: unquote.simps)
  next
    case 6
    then have "c = CHR 0x22" by (intro char_of_code) simp
    with 6 unquote_simple [of "CHR 0x22" "CHR 0x22" rest] show ?thesis
      by (simp add: quote_code_unit_def simple_escape_def dquote_def bslash_def
          del: unquote.simps)
  next
    case 7
    then have "c = CHR 0x5C" by (intro char_of_code) simp
    with 7 unquote_simple [of "CHR 0x5C" "CHR 0x5C" rest] show ?thesis
      by (simp add: quote_code_unit_def simple_escape_def dquote_def bslash_def
          del: unquote.simps)
  next
    case ctl
    have "?n < 256" by simp
    from ctl unquote_u00 [OF this, of rest] show ?thesis
      by (simp add: quote_code_unit_def Let_def del: unquote.simps)
  next
    case plain
    then have "c \<noteq> dquote" "c \<noteq> bslash"
      by (auto simp: dquote_def bslash_def)
    with plain unquote_plain [of c rest] show ?thesis
      by (simp add: quote_code_unit_def Let_def del: unquote.simps)
  qed
qed

lemma unquote_stringify:
  "unquote (concat (map quote_code_unit s) @ dquote # rest) = Closed s rest"
  by (induction s) (simp_all add: unquote_quote del: unquote.simps, simp)

lemma JSON_parse_stringify: "JSON_parse (JSON_stringify s) = String_value s"
proof -
  have "\<not> is_json_ws dquote" by (simp add: is_json_ws_def dquote_def)
  then show ?thesis
    using unquote_stringify [of s "[]"]
    by (simp add: JSON_parse_def JSON_stringify_def)
qed

subsection \<open>The language store\<close>

text \<open>
  C8, as the claim states it, fails where \<open>navigator.language\<close> is empty: the initial
  language is then taken from \<open>navigator.languages\<close>.
\<close>

theorem initial_lang_counterexample:
  "localStorage browser_without_language ''language'' = None
   \<and> initial_lang browser_without_language
       \<noteq> Lang (before_hyphen (navigator_language browser_without_language))"
  by (simp add: browser_without_language_def initial_lang_def before_hyphen_def)

text \<open>
  C8, amended. For every string \<open>l\<close>, \<open>setLanguage l\<close> stores \<open>JSON.stringify l\<close> under the
  key "language" and sets \<open>lang\<close> to \<open>l\<close>, and an initialization of the store after it
  yields \<open>lang = l\<close>. With nothing stored, the initial \<open>lang\<close> is the text before the first
  hyphen of \<open>navigator.language\<close> if that is not empty, and otherwise of the first entry of
  \<open>navigator.languages\<close> (without such an entry the initializer throws); it need not be one
  of the declared languages "en" and "zh".
\<close>

theorem language_store_round_trip:
  "localStorage (fst (setLanguage l (w, store))) ''language'' = Some (JSON_stringify l)
   \<and> lang_of (snd (setLanguage l (w, store))) = l
   \<and> initial_lang (fst (setLanguage l (w, store))) = Lang l
   \<and> (localStorage w ''language'' = None \<longrightarrow>
        initial_lang w =
          (if navigator_language w \<noteq> [] then Lang (before_hyphen (navigator_language w))
           else case navigator_languages w of
                  [] \<Rightarrow> Throws_TypeError
                | b # _ \<Rightarrow> Lang (before_hyphen b)))
   \<and> localStorage french_browser ''language'' = None
   \<and> initial_lang french_browser = Lang ''fr''
   \<and> \<not> is_Language ''fr''"
proof -
  have "initial_lang (fst (setLanguage l (w, store))) = Lang l"
    by (simp add: setLanguage_def initial_lang_def JSON_parse_stringify)
  moreover have "initial_lang french_browser = Lang ''fr''"
    by (simp add: french_browser_def initial_lang_def before_hyphen_def)
  ultimately show ?thesis
    by (simp add: setLanguage_def initial_lang_def is_Language_def french_browser_def
        split: list.splits)
qed

theorem language_store_round_trip_witness:
  "localStorage french_browser ''language'' = None
   \<and> initial_lang french_browser = Lang (before_hyphen ''fr-FR'')
   \<and> initial_lang (fst (setLanguage ''zh'' (french_browser, \<lparr>lang_of = ''fr''\<rparr>))) = Lang ''zh''"
  using language_store_round_trip [of "''zh''" french_browser "\<lparr>lang_of = ''fr''\<rparr>"]
    language_store_round_trip [of "''zh''" "fst (setLanguage ''zh'' (french_browser, \<lparr>lang_of = ''fr''\<rparr>))" "\<lparr>lang_of = ''fr''\<rparr>"]
  by (simp add: french_browser_def before_hyphen_def)

subsection \<open>The locale hooks\<close>

text \<open>
  C1. The first render of useMessageLocale (and of useFormLocale) returns the object built
  with the translation function of that render. The dependency list of the memo is empty:
  every later render returns the object of the first render, whatever the translation
  function of the later render is, so after a language switch the object still carries
  the first language's translations.
\<close>

theorem useMessageLocale_stale:
  "fst (useMessageLocale t1 None) = messageLocale t1
   \<and> fst (useMessageLocale t2 (snd (useMessageLocale t1 None))) = messageLocale t1
   \<and> map_of (fst (useMessageLocale t2 (snd (useMessageLocale t1 None)))) ''EMPTY_INPUT_SEND_MESSAGE''
       = Some (t1 ''messages.emptyInputSend'')
   \<and> fst (useFormLocale t1 None) = formLocale t1
   \<and> fst (useFormLocale t2 (snd (useFormLocale t1 None))) = formLocale t1
   \<and> map_of (fst (useFormLocale t2 (snd (useFormLocale t1 None)))) ''DEFAULT_PLACEHOLDER''
       = Some (t1 ''forms.defaultPlaceholder'')
   \<and> map_of (formLocale t1) ''RECEIVING_INPUT_VALUE'' = Some (t1 ''forformsm.receivingInputValue'')"
  by (simp add: useMessageLocale_def useFormLocale_def useMemo_def areHookInputsEqual_def
      Let_def messageLocale_def formLocale_def)


subsection \<open>regexHighlight\<close>

lemma ms_Seq_iff:
  "(rest, c') \<in> set (ms (Seq r1 r2) s c) \<longleftrightarrow>
     (\<exists>s1 c1. (s1, c1) \<in> set (ms r1 s c) \<and> (rest, c') \<in> set (ms r2 s1 c1))"
  by auto

lemma ms_Group_iff:
  "(rest, c') \<in> set (ms (Group n r) s c) \<longleftrightarrow>
     (\<exists>c1. (rest, c1) \<in> set (ms r s c) \<and> c' = c1(n \<mapsto> take (length s - length rest) s))"
  by auto

lemma star_single_Nil:
  assumes "\<And>s c. ms r s c = (case s of [] \<Rightarrow> [] | x # xs \<Rightarrow> if P x then [(xs, c)] else [])"
  shows "ms (Star g r) [] c = [([], c)]"
  by (subst ms.simps(6)) (simp add: assms del: ms.simps(6))

lemma star_single_Cons:
  assumes "\<And>s c. ms r s c = (case s of [] \<Rightarrow> [] | x # xs \<Rightarrow> if P x then [(xs, c)] else [])"
  shows "ms (Star g r) (x # xs) c =
     (if P x then
        (if g then ms (Star g r) xs c @ [(x # xs, c)] else (x # xs, c) # ms (Star g r) xs c)
      else [(x # xs, c)])"
  by (subst ms.simps(6)) (simp add: assms del: ms.simps(6))

lemma star_single_shape:
  assumes single: "\<And>s c. ms r s c = (case s of [] \<Rightarrow> [] | x # xs \<Rightarrow> if P x then [(xs, c)] else [])"
    and "(rest, c') \<in> set (ms (Star g r) s c)"
  shows "c' = c \<and> (\<exists>m. s = m @ rest \<and> list_all P m)"
  using assms(2)
proof (induction s)
  case Nil
  then show ?case
    by (simp add: star_single_Nil [OF single] del: ms.simps(6))
next
  case (Cons x xs)
  show ?case
  proof (cases "(rest, c') = (x # xs, c)")
    case True
    then show ?thesis by simp
  next
    case False
    with Cons.prems have px: "P x" and "(rest, c') \<in> set (ms (Star g r) xs c)"
      by (auto simp: star_single_Cons [OF single] split: if_splits
          simp del: ms.simps(6))
    with Cons.IH obtain m where "c' = c" "xs = m @ rest" "list_all P m"
      by blast
    with px have "x # xs = (x # m) @ rest \<and> list_all P (x # m)" by simp
    with \<open>c' = c\<close> show ?thesis by blast
  qed
qed

lemma plus_single_shape:
  assumes single: "\<And>s c. ms r s c = (case s of [] \<Rightarrow> [] | x # xs \<Rightarrow> if P x then [(xs, c)] else [])"
    and "(rest, c') \<in> set (ms (Plus r) s c)"
  shows "c' = c \<and> (\<exists>m. s = m @ rest \<and> m \<noteq> [] \<and> list_all P m)"
proof -
  from assms(2) obtain x xs where s: "s = x # xs" and px: "P x"
    and "(rest, c') \<in> set (ms (Star True r) xs c)"
    by (cases s) (auto simp: Plus_def single split: if_splits simp del: ms.simps(6))
  with star_single_shape [OF single, of rest c' True xs c]
  obtain m where "c' = c" "xs = m @ rest" "list_all P m"
    by blast
  with s px have "s = (x # m) @ rest \<and> x # m \<noteq> [] \<and> list_all P (x # m)" by simp
  with \<open>c' = c\<close> show ?thesis by blast
qed

lemma single_Lit: "ms (Lit a) s c = (case s of [] \<Rightarrow> [] | x # xs \<Rightarrow> if x = a then [(xs, c)] else [])"
  by simp

lemma single_NoneOf:
  "ms (NoneOf as) s c = (case s of [] \<Rightarrow> [] | x # xs \<Rightarrow> if x \<notin> set as then [(xs, c)] else [])"
  by simp

lemma single_AnyChar:
  "ms AnyChar s c = (case s of [] \<Rightarrow> [] | x # xs \<Rightarrow> if (\<lambda>_. True) x then [(xs, c)] else [])"
  by (cases s) simp_all

lemma group_plus_shape:
  assumes single: "\<And>s c. ms r s c = (case s of [] \<Rightarrow> [] | x # xs \<Rightarrow> if P x then [(xs, c)] else [])"
    and "(rest, c') \<in> set (ms (Group n (Plus r)) s c)"
  shows "\<exists>m. s = m @ rest \<and> m \<noteq> [] \<and> list_all P m \<and> c' = c(n \<mapsto> m)"
proof -
  from assms(2) obtain c1 where in1: "(rest, c1) \<in> set (ms (Plus r) s c)"
    and c': "c' = c1(n \<mapsto> take (length s - length rest) s)"
    unfolding ms_Group_iff by blast
  from plus_single_shape [OF single in1] obtain m
    where "c1 = c" "s = m @ rest" "m \<noteq> []" "list_all P m" by blast
  with c' show ?thesis by auto
qed

lemma braced_variable_shape:
  assumes "(rest, c') \<in> set (ms braced_variable s c)"
  shows "\<exists>p2 p3 p4. s = p2 @ p3 @ p4 @ rest
     \<and> p2 \<noteq> [] \<and> list_all (\<lambda>x. x = CHR ''{'') p2
     \<and> p3 \<noteq> [] \<and> list_all (\<lambda>x. x \<notin> set ''{}'') p3
     \<and> p4 \<noteq> [] \<and> list_all (\<lambda>x. x = CHR ''}'') p4
     \<and> c' = c(2 \<mapsto> p2, 3 \<mapsto> p3, 4 \<mapsto> p4)"
proof -
  from assms obtain s1 c1 s2 c2
    where g2: "(s1, c1) \<in> set (ms (Group 2 (Plus (Lit CHR ''{''))) s c)"
      and g3: "(s2, c2) \<in> set (ms (Group 3 (Plus (NoneOf ''{}''))) s1 c1)"
      and g4: "(rest, c') \<in> set (ms (Group 4 (Plus (Lit CHR ''}''))) s2 c2)"
    unfolding braced_variable_def ms_Seq_iff by blast
  from group_plus_shape [OF single_Lit g2] obtain p2
    where p2: "s = p2 @ s1" "p2 \<noteq> []" "list_all (\<lambda>x. x = CHR ''{'') p2" "c1 = c(2 \<mapsto> p2)"
    by blast
  from group_plus_shape [OF single_NoneOf g3] obtain p3
    where p3: "s1 = p3 @ s2" "p3 \<noteq> []" "list_all (\<lambda>x. x \<notin> set ''{}'') p3" "c2 = c1(3 \<mapsto> p3)"
    by blast
  from group_plus_shape [OF single_Lit g4] obtain p4
    where p4: "s2 = p4 @ rest" "p4 \<noteq> []" "list_all (\<lambda>x. x = CHR ''}'') p4" "c' = c2(4 \<mapsto> p4)"
    by blast
  from p2 p3 p4 show ?thesis by blast
qed

lemma fenced_code_block_shape:
  assumes "(rest, c') \<in> set (ms fenced_code_block s c)"
  shows "\<exists>body. s = replicate 3 backtick @ body @ replicate 3 backtick @ rest
     \<and> c' = c(1 \<mapsto> replicate 3 backtick @ body @ replicate 3 backtick)"
proof -
  let ?b = backtick
  from assms obtain c1 where
    inner: "(rest, c1) \<in> set (ms (Seq (Lit ?b) (Seq (Lit ?b) (Seq (Lit ?b)
              (Seq (Star False AnyChar) (Seq (Lit ?b) (Seq (Lit ?b) (Lit ?b))))))) s c)"
    and c': "c' = c1(1 \<mapsto> take (length s - length rest) s)"
    unfolding fenced_code_block_def ms_Group_iff by blast
  from inner obtain s3 s4 c4 where s: "s = ?b # ?b # ?b # s3"
    and star: "(s4, c4) \<in> set (ms (Star False AnyChar) s3 c)"
    and close: "(rest, c1) \<in> set (ms (Seq (Lit ?b) (Seq (Lit ?b) (Lit ?b))) s4 c4)"
    unfolding ms_Seq_iff by (auto split: list.splits if_splits simp del: ms.simps(6))
  from star_single_shape [OF single_AnyChar star] obtain body
    where body: "c4 = c" "s3 = body @ s4" by blast
  from close have "s4 = ?b # ?b # ?b # rest" "c1 = c4"
    by (auto split: list.splits if_splits)
  with s body have "s = replicate 3 ?b @ body @ replicate 3 ?b @ rest" "c1 = c"
    by (simp_all add: numeral_3_eq_3)
  with c' show ?thesis by auto
qed

lemma regexHighlight_way_shape:
  assumes "(rest, c') \<in> set (ms regexHighlight s Map.empty)"
    and m: "matched m = take (length s - length rest) s" "groups m = c'"
  shows "fenced_shape m \<or> variable_shape m"
proof -
  from assms(1) consider
      (fenced) "(rest, c') \<in> set (ms fenced_code_block s Map.empty)"
    | (braced) "(rest, c') \<in> set (ms braced_variable s Map.empty)"
    by (auto simp: regexHighlight_def)
  then show ?thesis
  proof cases
    case fenced
    from fenced_code_block_shape [OF fenced] obtain body
      where "s = replicate 3 backtick @ body @ replicate 3 backtick @ rest"
        and "c' = [1 \<mapsto> replicate 3 backtick @ body @ replicate 3 backtick]"
      by blast
    with m have "fenced_shape m"
      by (simp add: fenced_shape_def)
    then show ?thesis ..
  next
    case braced
    from braced_variable_shape [OF braced] obtain p2 p3 p4
      where "s = p2 @ p3 @ p4 @ rest"
        and "p2 \<noteq> []" "list_all (\<lambda>x. x = CHR ''{'') p2"
        and "p3 \<noteq> []" "list_all (\<lambda>x. x \<notin> set ''{}'') p3"
        and "p4 \<noteq> []" "list_all (\<lambda>x. x = CHR ''}'') p4"
        and "c' = [2 \<mapsto> p2, 3 \<mapsto> p3, 4 \<mapsto> p4]"
      by blast
    with m have "variable_shape m"
      by (simp add: variable_shape_def)
    then show ?thesis ..
  qed
qed

lemma exec_from_Nil:
  "ms r s Map.empty = [] \<Longrightarrow>
     exec_from r i s = (case s of [] \<Rightarrow> None | _ # s' \<Rightarrow> exec_from r (Suc i) s')"
  by (subst exec_from.simps) (simp del: exec_from.simps)

lemma exec_from_Cons:
  "ms r s Map.empty = (rest, c) # ways \<Longrightarrow>
     exec_from r i s = Some \<lparr>index = i, matched = take (length s - length rest) s, groups = c\<rparr>"
  by (subst exec_from.simps) (simp del: exec_from.simps)

lemma exec_from_way:
  "exec_from r i s = Some m \<Longrightarrow>
     \<exists>s' rest c'. (rest, c') \<in> set (ms r s' Map.empty)
        \<and> matched m = take (length s' - length rest) s' \<and> groups m = c'"
proof (induction s arbitrary: i)
  case Nil
  show ?case
  proof (cases "ms r [] Map.empty")
    case Nil
    from exec_from_Nil [OF this, of i] Nil.prems show ?thesis by simp
  next
    case (Cons way ways)
    obtain rest c' where way: "way = (rest, c')" by (cases way)
    from exec_from_Cons [of r "[]" rest c' ways i] Cons way Nil.prems
    have "matched m = take (length ([]::string) - length rest) []" "groups m = c'"
      by auto
    moreover from Cons way have "(rest, c') \<in> set (ms r [] Map.empty)" by simp
    ultimately show ?thesis by blast
  qed
next
  case (Cons x s)
  show ?case
  proof (cases "ms r (x # s) Map.empty")
    case Nil
    from exec_from_Nil [OF this, of i] Cons.prems have "exec_from r (Suc i) s = Some m"
      by simp
    then show ?thesis by (rule Cons.IH)
  next
    case (Cons way ways)
    obtain rest c' where way: "way = (rest, c')" by (cases way)
    from exec_from_Cons [of r "x # s" rest c' ways i] Cons way Cons.prems
    have "matched m = take (length (x # s) - length rest) (x # s)" "groups m = c'"
      by auto
    moreover from Cons way have "(rest, c') \<in> set (ms r (x # s) Map.empty)" by simp
    ultimately show ?thesis by blast
  qed
qed

lemma all_matches_exec:
  "m \<in> set (all_matches r i s) \<Longrightarrow> \<exists>i' s'. exec_from r i' s' = Some m"
proof (induction r i s rule: all_matches.induct)
  case (1 r i s)
  show ?case
  proof (cases "exec_from r i s")
    case None
    with "1.prems" show ?thesis
      by (simp add: all_matches.simps [of r i s] del: all_matches.simps exec_from.simps)
  next
    case (Some m0)
    define k where "k = index m0 - i + max 1 (length (matched m0))"
    show ?thesis
    proof (cases "m = m0")
      case True
      with Some show ?thesis by blast
    next
      case False
      with "1.prems" Some have le: "k \<le> length s"
        and "m \<in> set (all_matches r (i + k) (drop k s))"
        by (auto simp: all_matches.simps [of r i s] k_def Let_def split: if_splits
            simp del: all_matches.simps exec_from.simps)
      with "1.IH" [OF Some k_def le] show ?thesis by blast
    qed
  qed
qed

lemma seq_first:
  "ms r1 s c = (s1, c1) # ways1 \<Longrightarrow> ms r2 s1 c1 = (s2, c2) # ways2
     \<Longrightarrow> \<exists>ways. ms (Seq r1 r2) s c = (s2, c2) # ways"
  by simp

lemma group_first:
  "ms r s c = (rest, c1) # ways
     \<Longrightarrow> \<exists>ways'. ms (Group n r) s c = (rest, c1(n \<mapsto> take (length s - length rest) s)) # ways'"
  by simp

lemma star_greedy_first:
  assumes single: "\<And>s c. ms r s c = (case s of [] \<Rightarrow> [] | x # xs \<Rightarrow> if P x then [(xs, c)] else [])"
    and "list_all P m" and "rest = [] \<or> \<not> P (hd rest)"
  shows "\<exists>ways. ms (Star True r) (m @ rest) c = (rest, c) # ways"
  using assms(2)
proof (induction m)
  case Nil
  from assms(3) show ?case
    by (cases rest)
      (auto simp: star_single_Nil [OF single] star_single_Cons [OF single]
        simp del: ms.simps(6))
next
  case (Cons x m)
  then show ?case
    by (auto simp: star_single_Cons [OF single] simp del: ms.simps(6))
qed

lemma group_plus_first:
  assumes single: "\<And>s c. ms r s c = (case s of [] \<Rightarrow> [] | x # xs \<Rightarrow> if P x then [(xs, c)] else [])"
    and "m \<noteq> []" "list_all P m" and "rest = [] \<or> \<not> P (hd rest)"
  shows "\<exists>ways. ms (Group n (Plus r)) (m @ rest) c = (rest, c(n \<mapsto> m)) # ways"
proof -
  from assms(2,3) obtain x m' where m: "m = x # m'" and "P x" "list_all P m'"
    by (cases m) auto
  with star_greedy_first [OF single _ assms(4), of m' c]
  obtain ways where "ms (Star True r) (m' @ rest) c = (rest, c) # ways" by blast
  with m \<open>P x\<close> have "ms (Plus r) (m @ rest) c = (rest, c) # ways"
    by (simp add: Plus_def single)
  from group_first [OF this, of n] show ?thesis by simp
qed

lemma braced_variable_first:
  assumes "p2 \<noteq> []" "list_all (\<lambda>x. x = CHR ''{'') p2"
    and "p3 \<noteq> []" "list_all (\<lambda>x. x \<notin> set ''{}'') p3"
    and "p4 \<noteq> []" "list_all (\<lambda>x. x = CHR ''}'') p4"
    and "rest = [] \<or> hd rest \<noteq> CHR ''}''"
  shows "\<exists>ways. ms braced_variable (p2 @ p3 @ p4 @ rest) c
     = (rest, c(2 \<mapsto> p2, 3 \<mapsto> p3, 4 \<mapsto> p4)) # ways"
proof -
  from assms(3,4) have "\<not> hd (p3 @ p4 @ rest) = CHR ''{''"
    by (cases p3) auto
  with group_plus_first [OF single_Lit assms(1,2), of "p3 @ p4 @ rest" 2 c]
  obtain w2 where g2: "ms (Group 2 (Plus (Lit CHR ''{''))) (p2 @ p3 @ p4 @ rest) c
      = (p3 @ p4 @ rest, c(2 \<mapsto> p2)) # w2"
    by auto
  from assms(5,6) have "\<not> hd (p4 @ rest) \<notin> set ''{}''"
    by (cases p4) auto
  with group_plus_first [OF single_NoneOf assms(3,4), of "p4 @ rest" 3 "c(2 \<mapsto> p2)"]
  obtain w3 where g3: "ms (Group 3 (Plus (NoneOf ''{}''))) (p3 @ p4 @ rest) (c(2 \<mapsto> p2))
      = (p4 @ rest, c(2 \<mapsto> p2, 3 \<mapsto> p3)) # w3"
    by auto
  from group_plus_first [OF single_Lit assms(5,6), of rest 4 "c(2 \<mapsto> p2, 3 \<mapsto> p3)"] assms(7)
  obtain w4 where g4: "ms (Group 4 (Plus (Lit CHR ''}''))) (p4 @ rest) (c(2 \<mapsto> p2, 3 \<mapsto> p3))
      = (rest, c(2 \<mapsto> p2, 3 \<mapsto> p3, 4 \<mapsto> p4)) # w4"
    by auto
  from seq_first [OF g3 g4] obtain w34
    where "ms (Seq (Group 3 (Plus (NoneOf ''{}''))) (Group 4 (Plus (Lit CHR ''}''))))
             (p3 @ p4 @ rest) (c(2 \<mapsto> p2))
           = (rest, c(2 \<mapsto> p2, 3 \<mapsto> p3, 4 \<mapsto> p4)) # w34"
    by blast
  from seq_first [OF g2 this] show ?thesis
    by (simp only: braced_variable_def)
qed

lemma regexHighlight_variable_first:
  assumes "p2 \<noteq> []" "list_all (\<lambda>x. x = CHR ''{'') p2"
    and "p3 \<noteq> []" "list_all (\<lambda>x. x \<notin> set ''{}'') p3"
    and "p4 \<noteq> []" "list_all (\<lambda>x. x = CHR ''}'') p4"
    and "rest = [] \<or> hd rest \<noteq> CHR ''}''"
  shows "exec_from regexHighlight i (p2 @ p3 @ p4 @ rest)
     = Some \<lparr>index = i, matched = p2 @ p3 @ p4, groups = [2 \<mapsto> p2, 3 \<mapsto> p3, 4 \<mapsto> p4]\<rparr>"
proof -
  from assms(1,2) obtain q where "p2 = CHR ''{'' # q" by (cases p2) auto
  then have "ms fenced_code_block (p2 @ p3 @ p4 @ rest) Map.empty = []"
    by (simp add: fenced_code_block_def backtick_def)
  moreover from braced_variable_first [OF assms, of Map.empty] obtain ways
    where "ms braced_variable (p2 @ p3 @ p4 @ rest) Map.empty
      = (rest, [2 \<mapsto> p2, 3 \<mapsto> p3, 4 \<mapsto> p4]) # ways" by blast
  ultimately have "ms regexHighlight (p2 @ p3 @ p4 @ rest) Map.empty
      = (rest, [2 \<mapsto> p2, 3 \<mapsto> p3, 4 \<mapsto> p4]) # ways"
    by (simp add: regexHighlight_def)
  from exec_from_Cons [OF this, of i] show ?thesis by simp
qed

text \<open>
  C7. For every input string, every match of regexHighlight is a fenced code block,
  captured as group 1, that begins and ends with three backticks, or a run of one or
  more opening braces (group 2), one or more characters that are not braces (group 3) and a
  run of one or more closing braces (group 4). In particular a brace-free, non-empty name
  between single or between double braces is matched, with the name as group 3.
\<close>

theorem regexHighlight_matches:
  "(\<forall>m \<in> set (all_matches regexHighlight 0 s). fenced_shape m \<or> variable_shape m)
   \<and> (v \<noteq> [] \<and> list_all (\<lambda>x. x \<noteq> CHR ''{'' \<and> x \<noteq> CHR ''}'') v \<longrightarrow>
        exec_from regexHighlight 0 (''{'' @ v @ ''}'')
          = Some \<lparr>index = 0, matched = ''{'' @ v @ ''}'',
                  groups = [2 \<mapsto> ''{'', 3 \<mapsto> v, 4 \<mapsto> ''}'']\<rparr>
        \<and> exec_from regexHighlight 0 (''{{'' @ v @ ''}}'')
          = Some \<lparr>index = 0, matched = ''{{'' @ v @ ''}}'',
                  groups = [2 \<mapsto> ''{{'', 3 \<mapsto> v, 4 \<mapsto> ''}}'']\<rparr>)"
proof (intro conjI ballI impI)
  fix m
  assume "m \<in> set (all_matches regexHighlight 0 s)"
  then obtain i' s' where "exec_from regexHighlight i' s' = Some m"
    using all_matches_exec by blast
  then obtain s'' rest c' where "(rest, c') \<in> set (ms regexHighlight s'' Map.empty)"
    and "matched m = take (length s'' - length rest) s''" "groups m = c'"
    using exec_from_way by blast
  then show "fenced_shape m \<or> variable_shape m"
    by (rule regexHighlight_way_shape)
next
  assume v: "v \<noteq> [] \<and> list_all (\<lambda>x. x \<noteq> CHR ''{'' \<and> x \<noteq> CHR ''}'') v"
  then have v': "v \<noteq> []" "list_all (\<lambda>x. x \<notin> set ''{}'') v"
    by (simp_all add: list_all_iff)
  from regexHighlight_variable_first [of "''{''" v "''}''" "[]" 0] v'
  show "exec_from regexHighlight 0 (''{'' @ v @ ''}'')
      = Some \<lparr>index = 0, matched = ''{'' @ v @ ''}'',
              groups = [2 \<mapsto> ''{'', 3 \<mapsto> v, 4 \<mapsto> ''}'']\<rparr>"
    by simp
  from regexHighlight_variable_first [of "''{{''" v "''}}''" "[]" 0] v'
  show "exec_from regexHighlight 0 (''{{'' @ v @ ''}}'')
      = Some \<lparr>index = 0, matched = ''{{'' @ v @ ''}}'',
              groups = [2 \<mapsto> ''{{'', 3 \<mapsto> v, 4 \<mapsto> ''}}'']\<rparr>"
    by simp
qed

lemma all_matches_example:
  "all_matches regexHighlight 0 ''a {variable} {{x}}''
   = [\<lparr>index = 2, matched = ''{variable}'',
       groups = [2 \<mapsto> ''{'', 3 \<mapsto> ''variable'', 4 \<mapsto> ''}'']\<rparr>,
      \<lparr>index = 13, matched = ''{{x}}'',
       groups = [2 \<mapsto> ''{{'', 3 \<mapsto> ''x'', 4 \<mapsto> ''}}'']\<rparr>]"
  by (simp add: regexHighlight_def fenced_code_block_def
      braced_variable_def Plus_def backtick_def Let_def
      star_single_Nil [OF single_Lit] star_single_Cons [OF single_Lit]
      star_single_Nil [OF single_NoneOf] star_single_Cons [OF single_NoneOf]
      del: ms.simps(6))

theorem regexHighlight_matches_witness:
  "all_matches regexHighlight 0 ''a {variable} {{x}}''
   = [\<lparr>index = 2, matched = ''{variable}'',
       groups = [2 \<mapsto> ''{'', 3 \<mapsto> ''variable'', 4 \<mapsto> ''}'']\<rparr>,
      \<lparr>index = 13, matched = ''{{x}}'',
       groups = [2 \<mapsto> ''{{'', 3 \<mapsto> ''x'', 4 \<mapsto> ''}}'']\<rparr>]
   \<and> list_all variable_shape (all_matches regexHighlight 0 ''a {variable} {{x}}'')
   \<and> exec_from regexHighlight 0 ''{{variable}}''
       = Some \<lparr>index = 0, matched = ''{{variable}}'',
               groups = [2 \<mapsto> ''{{'', 3 \<mapsto> ''variable'', 4 \<mapsto> ''}}'']\<rparr>"
  using regexHighlight_matches [of "''a {variable} {{x}}''" "''variable''"]
  by (simp add: all_matches_example fenced_shape_def
      del: ms.simps(6) exec_from.simps all_matches.simps)


end
